theory Spec2Isabelle
  imports Main "HOL-Library.Word"
begin

section \<open>Data model of the dialer package\<close>

text \<open>
  A \<open>netip.Addr\<close> is an IPv4 address, an IPv6 address or an IPv4 address mapped into
  IPv6. Only the family of an address matters to the dialer, so the bits of an address are
  one natural number.
\<close>

datatype addr = IPv4 nat | IPv6 nat | IPv4In6 nat

fun Is4 :: "addr \<Rightarrow> bool" where
  "Is4 (IPv4 _) = True"
| "Is4 _ = False"

fun Is4In6 :: "addr \<Rightarrow> bool" where
  "Is4In6 (IPv4In6 _) = True"
| "Is4In6 _ = False"

fun Unmap :: "addr \<Rightarrow> addr" where
  "Unmap (IPv4In6 n) = IPv4 n"
| "Unmap a = a"

text \<open>A \<open>net.Conn\<close> is opaque to the dialer: it is handed through to the caller.\<close>

datatype conn = Connection nat

text \<open>
  Go's \<open>error\<close> values. The three sentinels of the package and of \<open>os\<close>, an opaque
  error of a collaborator (the operating system, the resolver, \<open>net.SplitHostPort\<close>),
  \<open>fmt.Errorf("...: %w", e)\<close> and \<open>errors.Join\<close>. A \<open>nil\<close> error is \<open>None\<close> of
  \<open>error option\<close>.
\<close>

datatype error =
    ErrorNoIpAddress
  | ErrorInvalidedNetworkStack
  | ErrDeadlineExceeded
  | Other string
  | Errorf string error
  | Joined "error list"

text \<open>
  \<open>errors.Join\<close> returns \<open>nil\<close> when it is given no error. The dialer only ever
  collects errors that are not \<open>nil\<close>, so the list holds no \<open>nil\<close> to discard.
\<close>

definition errors_Join :: "error list \<Rightarrow> error option" where
  "errors_Join errs = (if errs = [] then None else Some (Joined errs))"

text \<open>The pair \<open>(net.Conn, error)\<close> that every dial function returns.\<close>

type_synonym dial_ret = "conn option \<times> error option"

text \<open>
  \<open>type option struct\<close>. The resolver and the transport override are interface values
  (\<open>nil\<close> is \<open>None\<close>), named by a handle. Go's \<open>int\<close> fields are only ever assigned
  and compared, so they are integers. The field \<open>prefer\<close> is \<open>prefer_ip\<close> here.
\<close>

record dialer_option =
  interfaceName :: string
  addrReuse :: bool
  routingMark :: int
  network :: int
  prefer_ip :: int
  tfo :: bool
  mpTcp :: bool
  resolver :: "nat option"
  netDialer :: "nat option"

text \<open>\<open>type Option func(opt *option)\<close>: the mutation of the struct is the returned struct.\<close>

type_synonym Option = "dialer_option \<Rightarrow> dialer_option"

definition WithInterface :: "string \<Rightarrow> Option" where
  "WithInterface name opt = opt\<lparr>interfaceName := name\<rparr>"

definition WithAddrReuse :: "bool \<Rightarrow> Option" where
  "WithAddrReuse reuse opt = opt\<lparr>addrReuse := reuse\<rparr>"

definition WithRoutingMark :: "int \<Rightarrow> Option" where
  "WithRoutingMark mark opt = opt\<lparr>routingMark := mark\<rparr>"

definition WithResolver :: "nat option \<Rightarrow> Option" where
  "WithResolver r opt = opt\<lparr>resolver := r\<rparr>"

definition WithPreferIPv4 :: Option where
  "WithPreferIPv4 opt = opt\<lparr>prefer_ip := 4\<rparr>"

definition WithPreferIPv6 :: Option where
  "WithPreferIPv6 opt = opt\<lparr>prefer_ip := 6\<rparr>"

definition WithOnlySingleStack :: "bool \<Rightarrow> Option" where
  "WithOnlySingleStack isIPv4 opt =
     (if isIPv4 then opt\<lparr>network := 4\<rparr> else opt\<lparr>network := 6\<rparr>)"

definition WithTFO :: "bool \<Rightarrow> Option" where
  "WithTFO t opt = opt\<lparr>tfo := t\<rparr>"

definition WithMPTCP :: "bool \<Rightarrow> Option" where
  "WithMPTCP m opt = opt\<lparr>mpTcp := m\<rparr>"

definition WithNetDialer :: "nat option \<Rightarrow> Option" where
  "WithNetDialer d opt = opt\<lparr>netDialer := d\<rparr>"

definition WithOption :: "dialer_option \<Rightarrow> Option" where
  "WithOption o' opt = o'"

text \<open>
  The process-wide variables: the default option list, the default interface name, the
  default routing mark (an \<open>int32\<close>), and the strategy toggle with the two function
  variables it keeps in step.
\<close>

datatype single_strategy = serialSingleStack | concurrentSingleStack

datatype dual_strategy = serialDualStack | concurrentDualStack

record globals =
  DefaultOptions :: "Option list"
  DefaultInterface :: string
  DefaultRoutingMark :: "32 word"
  tcpConcurrent :: bool
  actualSingleStackDialContext :: single_strategy
  actualDualStackDialContext :: dual_strategy

definition SetTcpConcurrent :: "bool \<Rightarrow> globals \<Rightarrow> globals" where
  "SetTcpConcurrent concurrent g =
     (if concurrent
      then g\<lparr>tcpConcurrent := concurrent,
             actualSingleStackDialContext := concurrentSingleStack,
             actualDualStackDialContext := concurrentDualStack\<rparr>
      else g\<lparr>tcpConcurrent := concurrent,
             actualSingleStackDialContext := serialSingleStack,
             actualDualStackDialContext := serialDualStack\<rparr>)"

definition GetTcpConcurrent :: "globals \<Rightarrow> bool" where
  "GetTcpConcurrent g = tcpConcurrent g"

subsection \<open>applyOptions\<close>

text \<open>
  The struct literal of \<open>applyOptions\<close>: the two seeded fields, every other field at
  Go's zero value.
\<close>

definition seed_option :: "globals \<Rightarrow> dialer_option" where
  "seed_option g =
     \<lparr>interfaceName = DefaultInterface g, addrReuse = False,
      routingMark = sint (DefaultRoutingMark g), network = 0, prefer_ip = 0,
      tfo = False, mpTcp = False, resolver = None, netDialer = None\<rparr>"

text \<open>\<open>for _, o := range os { o(opt) }\<close>\<close>

fun range_apply :: "Option list \<Rightarrow> dialer_option \<Rightarrow> dialer_option" where
  "range_apply [] opt = opt"
| "range_apply (f # fs) opt = range_apply fs (f opt)"

definition applyOptions :: "globals \<Rightarrow> Option list \<Rightarrow> dialer_option" where
  "applyOptions g options = range_apply options (range_apply (DefaultOptions g) (seed_option g))"

section \<open>The racing engine\<close>

subsection \<open>serialDialContext\<close>

text \<open>
  The connect primitive \<open>dialContext\<close> is a collaborator: for the time of one dial call
  it is a function from the address to the pair it returns. The loop of
  \<open>serialDialContext\<close> carries the collected errors and, as a log of its calls to the
  connect primitive, the addresses it has tried so far.
\<close>

fun serial_loop ::
  "(addr \<Rightarrow> dial_ret) \<Rightarrow> addr list \<Rightarrow> error list \<Rightarrow> addr list \<Rightarrow> dial_ret \<times> addr list" where
  "serial_loop dial [] errs tried = ((None, errors_Join errs), tried)"
| "serial_loop dial (a # as) errs tried =
     (case dial a of
        (c, None) \<Rightarrow> ((c, None), tried @ [a])
      | (c, Some e) \<Rightarrow> serial_loop dial as (errs @ [e]) (tried @ [a]))"

definition serialDialContext_log :: "(addr \<Rightarrow> dial_ret) \<Rightarrow> addr list \<Rightarrow> dial_ret \<times> addr list" where
  "serialDialContext_log dial ips =
     (if length ips = 0 then ((None, Some ErrorNoIpAddress), [])
      else serial_loop dial ips [] [])"

definition serialDialContext :: "(addr \<Rightarrow> dial_ret) \<Rightarrow> addr list \<Rightarrow> dial_ret" where
  "serialDialContext dial ips = fst (serialDialContext_log dial ips)"

subsection \<open>parallelDialContext\<close>

text \<open>
  \<open>type dialResult struct\<close>. The embedded \<open>net.Conn\<close> and \<open>error\<close> are the fields
  \<open>Conn\<close> and \<open>error\<close>; the zero \<open>netip.Addr\<close> of a result that names no address
  is \<open>None\<close>.
\<close>

record dialResult =
  ip :: "addr option"
  Conn :: "conn option"
  error :: "error option"
  isPrimary :: bool

text \<open>The result a racer of the flat race sends: the outcome of its one attempt.\<close>

definition parallel_racer :: "(addr \<Rightarrow> dial_ret) \<Rightarrow> addr \<Rightarrow> dialResult" where
  "parallel_racer dial a =
     \<lparr>ip = Some a, Conn = fst (dial a), error = snd (dial a), isPrimary = True\<rparr>"

text \<open>
  One racer is started per address and each sends one result before the function
  returns, so the \<open>len(ips)\<close> receives of the loop are a traversal of the results in the
  order they arrive. The loop carries the collected errors.
\<close>

fun parallel_loop :: "dialResult list \<Rightarrow> error list \<Rightarrow> dial_ret" where
  "parallel_loop [] errs =
     (if length errs > 0 then (None, errors_Join errs) else (None, Some ErrDeadlineExceeded))"
| "parallel_loop (res # rs) errs =
     (case error res of
        None \<Rightarrow> (Conn res, None)
      | Some e \<Rightarrow> parallel_loop rs (errs @ [e]))"

text \<open>
  The order of arrival is not fixed by the code. It is a parameter: every attempt has a
  completion time, and the results arrive by completion time (attempts that complete
  together, in address order). Every order of distinct addresses is the order of some
  completion times.
\<close>

definition parallelDialContext ::
  "(addr \<Rightarrow> dial_ret) \<Rightarrow> (addr \<Rightarrow> nat) \<Rightarrow> addr list \<Rightarrow> dial_ret" where
  "parallelDialContext dial latency ips =
     (if length ips = 0 then (None, Some ErrorNoIpAddress)
      else parallel_loop (map (parallel_racer dial) (sort_key latency ips)) [])"

subsection \<open>dualStackDialContext\<close>

text \<open>
  Modelled from the spec: \<open>resolver.SortationAddr\<close> is not among the sources. The spec
  has it partition the candidate list into an IPv4 group and an IPv6 group, each in the
  resolver's order.
\<close>

definition SortationAddr :: "addr list \<Rightarrow> addr list \<times> addr list" where
  "SortationAddr ips = (filter Is4 ips, filter (\<lambda>a. \<not> Is4 a) ips)"

text \<open>The two racer goroutines, and the result each sends when its \<open>dialFn\<close> returns.\<close>

datatype task = Task4 | Task6

definition racer :: "(addr list \<Rightarrow> dial_ret) \<Rightarrow> addr list \<Rightarrow> bool \<Rightarrow> dialResult" where
  "racer dialFn ips isP =
     \<lparr>ip = None, Conn = fst (dialFn ips), error = snd (dialFn ips), isPrimary = isP\<rparr>"

text \<open>The racers that are started: one per group that is not empty.\<close>

definition racers ::
  "(addr list \<Rightarrow> dial_ret) \<Rightarrow> dialer_option \<Rightarrow> addr list \<Rightarrow> addr list \<Rightarrow> task \<Rightarrow> dialResult option" where
  "racers dialFn opt ipv4s ipv6s t =
     (case t of
        Task4 \<Rightarrow> if length ipv4s \<noteq> 0 then Some (racer dialFn ipv4s (prefer_ip opt \<noteq> 6)) else None
      | Task6 \<Rightarrow> if length ipv6s \<noteq> 0 then Some (racer dialFn ipv6s (prefer_ip opt \<noteq> 4)) else None)"

text \<open>
  What one \<open>select\<close> of the coordinating loop picks: a tick of the fallback ticker, or a
  result from the channel. The end of the list is the closed channel (\<open>!ok\<close>).
\<close>

datatype select = Tick | Recv dialResult

definition connect_failed :: "error \<Rightarrow> error" where
  "connect_failed e = Errorf ''connect failed'' e"

fun dualStack_loop :: "select list \<Rightarrow> dialResult \<Rightarrow> error list \<Rightarrow> dial_ret" where
  "dualStack_loop [] fallback errs =
     (if error fallback = None \<and> Conn fallback \<noteq> None then (Conn fallback, None)
      else (None, errors_Join errs))"
| "dualStack_loop (Tick # ss) fallback errs =
     (if error fallback = None \<and> Conn fallback \<noteq> None then (Conn fallback, None)
      else dualStack_loop ss fallback errs)"
| "dualStack_loop (Recv res # ss) fallback errs =
     (case error res of
        None \<Rightarrow>
          if isPrimary res then (Conn res, None)
          else dualStack_loop ss res errs
      | Some e \<Rightarrow>
          if isPrimary res then dualStack_loop ss fallback (connect_failed e # errs)
          else dualStack_loop ss fallback (errs @ [connect_failed e]))"

text \<open>
  The schedule of one race is a parameter: the order in which the ticker fires and the
  racers finish. A racer that was not started sends nothing.
\<close>

datatype sched = Ticker | Finished task

fun selects :: "(task \<Rightarrow> dialResult option) \<Rightarrow> sched list \<Rightarrow> select list" where
  "selects rs [] = []"
| "selects rs (Ticker # s) = Tick # selects rs s"
| "selects rs (Finished t # s) =
     (case rs t of None \<Rightarrow> selects rs s | Some res \<Rightarrow> Recv res # selects rs s)"

text \<open>\<open>var fallback dialResult\<close>: Go's zero value.\<close>

definition zero_dialResult :: dialResult where
  "zero_dialResult = \<lparr>ip = None, Conn = None, error = None, isPrimary = False\<rparr>"

definition dualStackDialContext ::
  "(addr list \<Rightarrow> dial_ret) \<Rightarrow> addr list \<Rightarrow> dialer_option \<Rightarrow> sched list \<Rightarrow> dial_ret" where
  "dualStackDialContext dialFn ips opt s =
     (case SortationAddr ips of (ipv4s, ipv6s) \<Rightarrow>
        if length ipv4s = 0 \<and> length ipv6s = 0 then (None, Some ErrorNoIpAddress)
        else dualStack_loop (selects (racers dialFn opt ipv4s ipv6s) s) zero_dialResult [])"

text \<open>
  In a real run every started racer finishes once before the channel is closed: the
  schedule names each started racer once and no other.
\<close>

definition complete_schedule :: "(task \<Rightarrow> dialResult option) \<Rightarrow> sched list \<Rightarrow> bool" where
  "complete_schedule rs s =
     (list_all (\<lambda>t. count_list s (Finished t) = (if rs t = None then 0 else 1)) [Task4, Task6])"

subsection \<open>The four strategies\<close>

definition serialSingleStackDialContext :: "(addr \<Rightarrow> dial_ret) \<Rightarrow> addr list \<Rightarrow> dial_ret" where
  "serialSingleStackDialContext dial ips = serialDialContext dial ips"

definition serialDualStackDialContext ::
  "(addr \<Rightarrow> dial_ret) \<Rightarrow> addr list \<Rightarrow> dialer_option \<Rightarrow> sched list \<Rightarrow> dial_ret" where
  "serialDualStackDialContext dial ips opt s =
     dualStackDialContext (serialDialContext dial) ips opt s"

definition concurrentSingleStackDialContext ::
  "(addr \<Rightarrow> dial_ret) \<Rightarrow> (addr \<Rightarrow> nat) \<Rightarrow> addr list \<Rightarrow> dial_ret" where
  "concurrentSingleStackDialContext dial latency ips = parallelDialContext dial latency ips"

definition concurrentDualStackDialContext ::
  "(addr \<Rightarrow> dial_ret) \<Rightarrow> (addr \<Rightarrow> nat) \<Rightarrow> addr list \<Rightarrow> dialer_option \<Rightarrow> sched list \<Rightarrow> dial_ret" where
  "concurrentDualStackDialContext dial latency ips opt s =
     (if prefer_ip opt \<noteq> 4 \<and> prefer_ip opt \<noteq> 6 then parallelDialContext dial latency ips
      else dualStackDialContext (parallelDialContext dial latency) ips opt s)"

subsection \<open>Reading a run of the coordinating loop\<close>

text \<open>
  A stored fallback is held when the loop's test \<open>fallback.error == nil && fallback.Conn != nil\<close>
  is true of it.
\<close>

definition held :: "dialResult \<Rightarrow> bool" where
  "held r = (error r = None \<and> Conn r \<noteq> None)"

text \<open>
  The errors that the primary racers and the fallback racers contribute in a run, each
  wrapped as the loop wraps it, in the order the results are received.
\<close>

fun primary_errs :: "select list \<Rightarrow> error list" where
  "primary_errs [] = []"
| "primary_errs (Tick # ss) = primary_errs ss"
| "primary_errs (Recv res # ss) =
     (case error res of
        None \<Rightarrow> primary_errs ss
      | Some e \<Rightarrow> if isPrimary res then connect_failed e # primary_errs ss else primary_errs ss)"

fun fallback_errs :: "select list \<Rightarrow> error list" where
  "fallback_errs [] = []"
| "fallback_errs (Tick # ss) = fallback_errs ss"
| "fallback_errs (Recv res # ss) =
     (case error res of
        None \<Rightarrow> fallback_errs ss
      | Some e \<Rightarrow> if isPrimary res then fallback_errs ss else connect_failed e # fallback_errs ss)"

text \<open>The racers of a call of \<open>dualStackDialContext\<close>, and what its loop receives.\<close>

definition dual_racers ::
  "(addr list \<Rightarrow> dial_ret) \<Rightarrow> dialer_option \<Rightarrow> addr list \<Rightarrow> task \<Rightarrow> dialResult option" where
  "dual_racers dialFn opt ips =
     racers dialFn opt (fst (SortationAddr ips)) (snd (SortationAddr ips))"

definition dual_selects ::
  "(addr list \<Rightarrow> dial_ret) \<Rightarrow> dialer_option \<Rightarrow> addr list \<Rightarrow> sched list \<Rightarrow> select list" where
  "dual_selects dialFn opt ips s = selects (dual_racers dialFn opt ips) s"

text \<open>
  A stretch of a run in which no result without error is received: only ticks and
  failures.
\<close>

definition no_success :: "select list \<Rightarrow> bool" where
  "no_success ss = list_all (\<lambda>x. case x of Tick \<Rightarrow> True | Recv res \<Rightarrow> error res \<noteq> None) ss"

section \<open>The dial entry point\<close>

subsection \<open>parseAddr\<close>

text \<open>
  The six lookup functions of the resolver package, and the family each resolves.
\<close>

datatype lookup =
    LookupIPv4ProxyServerHost | LookupIPv4WithResolver
  | LookupIPv6ProxyServerHost | LookupIPv6WithResolver
  | LookupIPProxyServerHost | LookupIPWithResolver

datatype family = IPv4Only | IPv6Only | AnyFamily

fun lookup_family :: "lookup \<Rightarrow> family" where
  "lookup_family LookupIPv4ProxyServerHost = IPv4Only"
| "lookup_family LookupIPv4WithResolver = IPv4Only"
| "lookup_family LookupIPv6ProxyServerHost = IPv6Only"
| "lookup_family LookupIPv6WithResolver = IPv6Only"
| "lookup_family LookupIPProxyServerHost = AnyFamily"
| "lookup_family LookupIPWithResolver = AnyFamily"

text \<open>The \<open>switch network\<close> of \<open>parseAddr\<close>: which lookup function it calls.\<close>

definition choose_lookup :: "string \<Rightarrow> nat option \<Rightarrow> lookup" where
  "choose_lookup net preferResolver =
     (if net = ''tcp4'' \<or> net = ''udp4'' then
        (if preferResolver = None then LookupIPv4ProxyServerHost else LookupIPv4WithResolver)
      else if net = ''tcp6'' \<or> net = ''udp6'' then
        (if preferResolver = None then LookupIPv6ProxyServerHost else LookupIPv6WithResolver)
      else
        (if preferResolver = None then LookupIPProxyServerHost else LookupIPWithResolver))"

text \<open>
  The collaborators of one dial call: \<open>net.SplitHostPort\<close>, the resolver package, the
  connect primitive \<open>dialContext\<close> (network, address, port and policy), and for the
  concurrent strategies the completion times of the attempts and the schedule of the
  dual-family race.
\<close>

record world =
  SplitHostPort :: "string \<Rightarrow> string \<times> string \<times> error option"
  resolver_lookup :: "lookup \<Rightarrow> string \<Rightarrow> nat option \<Rightarrow> addr list \<times> error option"
  dialContext :: "string \<Rightarrow> addr \<Rightarrow> string \<Rightarrow> dialer_option \<Rightarrow> dial_ret"
  completion_time :: "addr \<Rightarrow> nat"
  select_order :: "sched list"

definition parseAddr ::
  "world \<Rightarrow> string \<Rightarrow> string \<Rightarrow> nat option \<Rightarrow> addr list \<times> string \<times> error option" where
  "parseAddr w net address preferResolver =
     (case SplitHostPort w address of
        (host, port, Some err) \<Rightarrow> ([], ''-1'', Some err)
      | (host, port, None) \<Rightarrow>
          (case resolver_lookup w (choose_lookup net preferResolver) host preferResolver of
             (ips, Some err) \<Rightarrow> ([], ''-1'', Some (Errorf ''dns resolve failed'' err))
           | (ips, None) \<Rightarrow> (map (\<lambda>a. if Is4In6 a then Unmap a else a) ips, port, None)))"

subsection \<open>DialContext\<close>

fun HasPrefix :: "string \<Rightarrow> string \<Rightarrow> bool" where
  "HasPrefix s [] = True"
| "HasPrefix [] (c # p) = False"
| "HasPrefix (d # s) (c # p) = (d = c \<and> HasPrefix s p)"

fun strings_Contains :: "string \<Rightarrow> string \<Rightarrow> bool" where
  "strings_Contains [] sub = (sub = [])"
| "strings_Contains (c # s) sub = (HasPrefix (c # s) sub \<or> strings_Contains s sub)"

text \<open>
  The rewriting of the network token under a forced single-stack family. The \<open>%d\<close> of
  \<open>fmt.Sprintf\<close> only ever prints 4 or 6 here.
\<close>

definition forced_network :: "dialer_option \<Rightarrow> string \<Rightarrow> string" where
  "forced_network opt net =
     (if network opt = 4 \<or> network opt = 6 then
        (if strings_Contains net ''tcp'' then ''tcp'' else ''udp'')
          @ (if network opt = 4 then ''4'' else ''6'')
      else net)"

text \<open>The \<open>switch network\<close> of \<open>DialContext\<close>.\<close>

datatype stack = SingleStack | DualStack | InvalidNetwork

definition dispatch :: "string \<Rightarrow> stack" where
  "dispatch net =
     (if net = ''tcp4'' \<or> net = ''tcp6'' \<or> net = ''udp4'' \<or> net = ''udp6'' then SingleStack
      else if net = ''tcp'' \<or> net = ''udp'' then DualStack
      else InvalidNetwork)"

text \<open>Calls through the two function variables.\<close>

definition call_single ::
  "single_strategy \<Rightarrow> (addr \<Rightarrow> dial_ret) \<Rightarrow> (addr \<Rightarrow> nat) \<Rightarrow> addr list \<Rightarrow> dial_ret" where
  "call_single f dial latency ips =
     (case f of
        serialSingleStack \<Rightarrow> serialSingleStackDialContext dial ips
      | concurrentSingleStack \<Rightarrow> concurrentSingleStackDialContext dial latency ips)"

definition call_dual ::
  "dual_strategy \<Rightarrow> (addr \<Rightarrow> dial_ret) \<Rightarrow> (addr \<Rightarrow> nat) \<Rightarrow> addr list \<Rightarrow> dialer_option
     \<Rightarrow> sched list \<Rightarrow> dial_ret" where
  "call_dual f dial latency ips opt s =
     (case f of
        serialDualStack \<Rightarrow> serialDualStackDialContext dial ips opt s
      | concurrentDualStack \<Rightarrow> concurrentDualStackDialContext dial latency ips opt s)"

definition DialContext ::
  "globals \<Rightarrow> world \<Rightarrow> string \<Rightarrow> string \<Rightarrow> Option list \<Rightarrow> dial_ret" where
  "DialContext g w net0 address options =
     (let opt = applyOptions g options;
          net = forced_network opt net0
      in case parseAddr w net address (resolver opt) of
           (ips, port, Some err) \<Rightarrow> (None, Some err)
         | (ips, port, None) \<Rightarrow>
             (case dispatch net of
                SingleStack \<Rightarrow>
                  call_single (actualSingleStackDialContext g)
                    (\<lambda>a. dialContext w net a port opt) (completion_time w) ips
              | DualStack \<Rightarrow>
                  call_dual (actualDualStackDialContext g)
                    (\<lambda>a. dialContext w net a port opt) (completion_time w) ips opt
                    (select_order w)
              | InvalidNetwork \<Rightarrow> (None, Some ErrorInvalidedNetworkStack)))"

subsection \<open>The suffix rule of the specification\<close>

text \<open>
  The specification's words for the resolution mode: a token ending in \<open>4\<close> resolves
  IPv4 only, a token ending in \<open>6\<close> IPv6 only, every other token both families.
\<close>

definition suffix_family :: "string \<Rightarrow> family" where
  "suffix_family net =
     (if net \<noteq> [] \<and> last net = CHR ''4'' then IPv4Only
      else if net \<noteq> [] \<and> last net = CHR ''6'' then IPv6Only
      else AnyFamily)"

section \<open>Example collaborators\<close>

text \<open>
  A connect primitive that reaches the addresses numbered 2 and refuses every other
  one, and one that refuses every address.
\<close>

definition example_dial :: "addr \<Rightarrow> dial_ret" where
  "example_dial a =
     (if a = IPv4 2 then (Some (Connection 42), None)
      else if a = IPv6 2 then (Some (Connection 62), None)
      else (None, Some (Other ''connection refused'')))"

definition refusing_dial :: "addr \<Rightarrow> dial_ret" where
  "refusing_dial a =
     (case a of
        IPv4 n \<Rightarrow> (None, Some (Other ''connection refused''))
      | _ \<Rightarrow> (None, Some (Other ''network is unreachable'')))"

text \<open>Completion times under which IPv6 attempts finish before IPv4 attempts.\<close>

definition example_latency :: "addr \<Rightarrow> nat" where
  "example_latency a = (case a of IPv4 n \<Rightarrow> 30 + n | IPv6 n \<Rightarrow> 10 + n | IPv4In6 n \<Rightarrow> 50 + n)"

text \<open>The process-wide variables at process start, and a policy that prefers IPv6.\<close>

definition initial_globals :: globals where
  "initial_globals =
     \<lparr>DefaultOptions = [], DefaultInterface = [], DefaultRoutingMark = 0,
      tcpConcurrent = False, actualSingleStackDialContext = serialSingleStack,
      actualDualStackDialContext = serialDualStack\<rparr>"

definition prefer6_option :: dialer_option where
  "prefer6_option = applyOptions initial_globals [WithPreferIPv6]"

text \<open>
  A world in which two host names split, one of them resolves, and the addresses
  numbered 2 can be reached.
\<close>

definition example_split :: "string \<Rightarrow> string \<times> string \<times> error option" where
  "example_split address =
     (if address = ''example.com:443'' then (''example.com'', ''443'', None)
      else if address = ''nowhere.invalid:443'' then (''nowhere.invalid'', ''443'', None)
      else ([], [], Some (Other ''missing port in address'')))"

definition example_lookup :: "lookup \<Rightarrow> string \<Rightarrow> nat option \<Rightarrow> addr list \<times> error option" where
  "example_lookup l host r =
     (if host = ''example.com'' then
        (case lookup_family l of
           IPv4Only \<Rightarrow> ([IPv4 1, IPv4 2], None)
         | IPv6Only \<Rightarrow> ([IPv6 2], None)
         | AnyFamily \<Rightarrow> ([IPv6 3, IPv4 1, IPv4 2], None))
      else ([], Some (Other ''no such host'')))"

definition example_world :: world where
  "example_world =
     \<lparr>SplitHostPort = example_split, resolver_lookup = example_lookup,
      dialContext = (\<lambda>net a port opt. example_dial a),
      completion_time = example_latency,
      select_order = [Finished Task6, Ticker, Finished Task4]\<rparr>"

section \<open>Properties\<close>

subsection \<open>The serial chain\<close>

lemma range_apply_append:
  "range_apply (fs @ gs) opt = range_apply gs (range_apply fs opt)"
  by (induction fs arbitrary: opt) simp_all

lemma serial_loop_all_fail:
  "\<forall>a \<in> set as. snd (dial a) \<noteq> None \<Longrightarrow>
   serial_loop dial as errs tried =
     ((None, errors_Join (errs @ map (\<lambda>a. the (snd (dial a))) as)), tried @ as)"
proof (induction as arbitrary: errs tried)
  case Nil
  then show ?case by simp
next
  case (Cons a as)
  then obtain c e where d: "dial a = (c, Some e)"
    by (cases "dial a") auto
  from Cons.prems have "\<forall>a \<in> set as. snd (dial a) \<noteq> None" by simp
  from Cons.IH [OF this] d show ?case by simp
qed

lemma serial_loop_first_success:
  assumes "\<forall>a \<in> set pre. snd (dial a) \<noteq> None" and "snd (dial b) = None"
  shows "serial_loop dial (pre @ b # post) errs tried =
           ((fst (dial b), None), tried @ pre @ [b])"
  using assms
proof (induction pre arbitrary: errs tried)
  case Nil
  then show ?case by (cases "dial b") simp
next
  case (Cons a pre)
  then obtain c e where d: "dial a = (c, Some e)"
    by (cases "dial a") auto
  from Cons.prems have "\<forall>a \<in> set pre. snd (dial a) \<noteq> None" by simp
  from Cons.IH [OF this Cons.prems(2)] d show ?case by simp
qed

text \<open>
  C1. For every nonempty address list, \<open>serialDialContext\<close> calls the connect primitive
  on the addresses in list order. When an address succeeds after every address before it
  has failed, its connection is returned and no later address is tried; when every
  address fails, the result is the joined error of every attempt's error, in address
  order, and every address has been tried once, in order.
\<close>

theorem serialDialContext_in_order:
  assumes "ips \<noteq> []"
  shows "(\<forall>pre b post. ips = pre @ b # post \<and> (\<forall>a \<in> set pre. snd (dial a) \<noteq> None)
              \<and> snd (dial b) = None
            \<longrightarrow> serialDialContext_log dial ips = ((fst (dial b), None), pre @ [b]))
       \<and> ((\<forall>a \<in> set ips. snd (dial a) \<noteq> None)
            \<longrightarrow> serialDialContext_log dial ips =
                  ((None, Some (Joined (map (\<lambda>a. the (snd (dial a))) ips))), ips))"
proof (intro conjI allI impI)
  fix pre b post
  assume h: "ips = pre @ b # post \<and> (\<forall>a \<in> set pre. snd (dial a) \<noteq> None)
      \<and> snd (dial b) = None"
  then show "serialDialContext_log dial ips = ((fst (dial b), None), pre @ [b])"
    using serial_loop_first_success [of pre dial b post "[]" "[]"]
    by (simp add: serialDialContext_log_def)
next
  assume "\<forall>a \<in> set ips. snd (dial a) \<noteq> None"
  from serial_loop_all_fail [OF this, of "[]" "[]"] assms
  show "serialDialContext_log dial ips =
          ((None, Some (Joined (map (\<lambda>a. the (snd (dial a))) ips))), ips)"
    by (simp add: serialDialContext_log_def errors_Join_def)
qed

theorem serialDialContext_in_order_witness:
  "[IPv4 1, IPv4 2, IPv4 3] \<noteq> []
   \<and> serialDialContext_log example_dial [IPv4 1, IPv4 2, IPv4 3]
       = ((Some (Connection 42), None), [IPv4 1, IPv4 2])
   \<and> serialDialContext_log refusing_dial [IPv6 9, IPv4 1, IPv4 3]
       = ((None, Some (Joined [Other ''network is unreachable'', Other ''connection refused'',
            Other ''connection refused''])), [IPv6 9, IPv4 1, IPv4 3])"
proof -
  have "serialDialContext_log example_dial [IPv4 1, IPv4 2, IPv4 3]
      = ((fst (example_dial (IPv4 2)), None), [IPv4 1] @ [IPv4 2])"
    by (rule serialDialContext_in_order
          [THEN conjunct1, rule_format, where pre = "[IPv4 1]" and post = "[IPv4 3]"])
       (simp_all add: example_dial_def)
  moreover have "serialDialContext_log refusing_dial [IPv6 9, IPv4 1, IPv4 3]
      = ((None, Some (Joined (map (\<lambda>a. the (snd (refusing_dial a))) [IPv6 9, IPv4 1, IPv4 3]))),
         [IPv6 9, IPv4 1, IPv4 3])"
    by (rule serialDialContext_in_order [THEN conjunct2, rule_format])
       (auto simp add: refusing_dial_def)
  ultimately show ?thesis
    by (simp add: example_dial_def refusing_dial_def)
qed

subsection \<open>The flat race\<close>

lemma parallel_loop_outcome:
  "errs \<noteq> [] \<or> rs \<noteq> [] \<Longrightarrow>
   (\<exists>res \<in> set rs. error res = None \<and> parallel_loop rs errs = (Conn res, None))
   \<or> ((\<forall>res \<in> set rs. error res \<noteq> None)
       \<and> parallel_loop rs errs = (None, Some (Joined (errs @ map (\<lambda>res. the (error res)) rs))))"
proof (induction rs arbitrary: errs)
  case Nil
  then show ?case by (simp add: errors_Join_def)
next
  case (Cons res rs)
  show ?case
  proof (cases "error res")
    case None
    then show ?thesis by simp
  next
    case (Some e)
    have "errs @ [e] \<noteq> [] \<or> rs \<noteq> []" by simp
    from Cons.IH [OF this] Some show ?thesis by auto
  qed
qed

text \<open>
  C8. For every nonempty address list, whatever the order in which the attempts
  complete, \<open>parallelDialContext\<close> returns the connection of an attempt that succeeded
  or, when every attempt failed, the joined error of the collected errors in order of
  completion; it never returns \<open>os.ErrDeadlineExceeded\<close> of the branch for no result
  and no error.
\<close>

theorem parallelDialContext_no_deadline:
  assumes "ips \<noteq> []"
  shows "parallelDialContext dial latency ips \<noteq> (None, Some ErrDeadlineExceeded)
       \<and> ((\<exists>a \<in> set ips. snd (dial a) = None
              \<and> parallelDialContext dial latency ips = (fst (dial a), None))
          \<or> ((\<forall>a \<in> set ips. snd (dial a) \<noteq> None)
              \<and> parallelDialContext dial latency ips =
                  (None, Some (Joined (map (\<lambda>a. the (snd (dial a))) (sort_key latency ips))))))"
proof -
  let ?rs = "map (parallel_racer dial) (sort_key latency ips)"
  from assms have ne: "[] \<noteq> ([]::error list) \<or> ?rs \<noteq> []"
    by (cases ips) auto
  have run: "parallelDialContext dial latency ips = parallel_loop ?rs []"
    using assms by (simp add: parallelDialContext_def)
  from parallel_loop_outcome [OF ne]
  have alt: "(\<exists>a \<in> set ips. snd (dial a) = None
              \<and> parallelDialContext dial latency ips = (fst (dial a), None))
          \<or> ((\<forall>a \<in> set ips. snd (dial a) \<noteq> None)
              \<and> parallelDialContext dial latency ips =
                  (None, Some (Joined (map (\<lambda>a. the (snd (dial a))) (sort_key latency ips)))))"
    unfolding run by (auto simp add: parallel_racer_def comp_def)
  then have "parallelDialContext dial latency ips \<noteq> (None, Some ErrDeadlineExceeded)"
    by auto
  with alt show ?thesis by blast
qed

theorem parallelDialContext_no_deadline_witness:
  "[IPv4 1, IPv4 2, IPv6 2] \<noteq> []
   \<and> parallelDialContext example_dial example_latency [IPv4 1, IPv4 2, IPv6 2]
       \<noteq> (None, Some ErrDeadlineExceeded)
   \<and> parallelDialContext example_dial example_latency [IPv4 1, IPv4 2, IPv6 2]
       = (Some (Connection 62), None)
   \<and> parallelDialContext refusing_dial example_latency [IPv4 1, IPv6 2]
       = (None, Some (Joined [Other ''network is unreachable'', Other ''connection refused'']))"
proof -
  have ne: "[IPv4 1, IPv4 2, IPv6 2] \<noteq> []" by simp
  from parallelDialContext_no_deadline [OF ne, of example_dial example_latency]
  have "parallelDialContext example_dial example_latency [IPv4 1, IPv4 2, IPv6 2]
       \<noteq> (None, Some ErrDeadlineExceeded)"
    by (rule conjunct1)
  then show ?thesis
    by (simp add: parallelDialContext_def parallel_racer_def example_dial_def
        refusing_dial_def example_latency_def errors_Join_def)
qed

subsection \<open>The empty candidate list\<close>

lemma errors_Join_not_sentinel: "errors_Join errs \<noteq> Some ErrorNoIpAddress"
  by (simp add: errors_Join_def)

lemma serial_loop_not_NoIpAddress:
  "snd (fst (serial_loop dial as errs tried)) \<noteq> Some ErrorNoIpAddress"
proof (induction as arbitrary: errs tried)
  case Nil
  show ?case by (simp add: errors_Join_not_sentinel)
next
  case (Cons a as)
  show ?case
  proof (cases "dial a")
    case (Pair c eo)
    with Cons.IH show ?thesis by (cases eo) simp_all
  qed
qed

lemma parallel_loop_not_NoIpAddress:
  "snd (parallel_loop rs errs) \<noteq> Some ErrorNoIpAddress"
proof (induction rs arbitrary: errs)
  case Nil
  show ?case by (simp add: errors_Join_not_sentinel)
next
  case (Cons res rs)
  then show ?case by (cases "error res") simp_all
qed

lemma dualStack_loop_not_NoIpAddress:
  "snd (dualStack_loop ss fb errs) \<noteq> Some ErrorNoIpAddress"
proof (induction ss fb errs rule: dualStack_loop.induct)
  case (1 fallback errs)
  show ?case by (simp add: errors_Join_not_sentinel)
next
  case (2 ss fallback errs)
  then show ?case by simp
next
  case (3 res ss fallback errs)
  then show ?case by (cases "error res") simp_all
qed

lemma SortationAddr_empty:
  "(fst (SortationAddr ips) = [] \<and> snd (SortationAddr ips) = []) = (ips = [])"
proof (cases ips)
  case Nil
  then show ?thesis by (simp add: SortationAddr_def)
next
  case (Cons a as)
  then show ?thesis by (cases "Is4 a") (simp_all add: SortationAddr_def)
qed

text \<open>
  C2. Each of the three racing entry points returns the error value
  \<open>ErrorNoIpAddress\<close> exactly when its candidate list is empty; for
  \<open>dualStackDialContext\<close> that is when both groups of the partition are empty, which
  is when the list it was given is empty. This holds for every connect primitive, inner
  dial function, order of completion and schedule.
\<close>

theorem NoIpAddress_iff_empty:
  "(snd (serialDialContext dial ips) = Some ErrorNoIpAddress) = (ips = [])
   \<and> (snd (parallelDialContext dial latency ips) = Some ErrorNoIpAddress) = (ips = [])
   \<and> (snd (dualStackDialContext dialFn ips opt s) = Some ErrorNoIpAddress)
       = (fst (SortationAddr ips) = [] \<and> snd (SortationAddr ips) = [])
   \<and> (snd (dualStackDialContext dialFn ips opt s) = Some ErrorNoIpAddress) = (ips = [])"
proof -
  have serial: "(snd (serialDialContext dial ips) = Some ErrorNoIpAddress) = (ips = [])"
    by (simp add: serialDialContext_def serialDialContext_log_def serial_loop_not_NoIpAddress)
  have parallel: "(snd (parallelDialContext dial latency ips) = Some ErrorNoIpAddress) = (ips = [])"
    by (simp add: parallelDialContext_def parallel_loop_not_NoIpAddress)
  have dual: "(snd (dualStackDialContext dialFn ips opt s) = Some ErrorNoIpAddress)
       = (fst (SortationAddr ips) = [] \<and> snd (SortationAddr ips) = [])"
    by (cases "SortationAddr ips")
       (simp add: dualStackDialContext_def dualStack_loop_not_NoIpAddress)
  from serial parallel dual SortationAddr_empty [of ips] show ?thesis by simp
qed

subsection \<open>The dual-family racer\<close>

lemma dualStack_loop_error:
  "dualStack_loop ss fb errs = (c, Some e) \<Longrightarrow>
   c = None \<and> e = Joined (rev (primary_errs ss) @ errs @ fallback_errs ss)"
proof (induction ss fb errs rule: dualStack_loop.induct)
  case (1 fallback errs)
  then show ?case by (simp add: errors_Join_def split: if_splits)
next
  case (2 ss fallback errs)
  then show ?case by (simp split: if_splits)
next
  case (3 res ss fallback errs)
  show ?case
  proof (cases "error res")
    case None
    with 3 show ?thesis by (simp split: if_splits)
  next
    case (Some e')
    with 3 show ?thesis by (cases "isPrimary res") simp_all
  qed
qed

lemma dualStackDialContext_run:
  "ips \<noteq> [] \<Longrightarrow>
   dualStackDialContext dialFn ips opt s
     = dualStack_loop (dual_selects dialFn opt ips s) zero_dialResult []"
  using SortationAddr_empty [of ips]
  by (cases "SortationAddr ips")
     (auto simp add: dualStackDialContext_def dual_selects_def dual_racers_def)

text \<open>
  C5. When \<open>dualStackDialContext\<close> returns an error for a nonempty list, the error is
  the join of the errors of the primary racers followed by the errors of the fallback
  racers: every primary error stands ahead of every fallback error, whatever the order
  in which the racers finished.
\<close>

theorem dualStack_errors_primary_first:
  assumes "ips \<noteq> []"
    and "snd (dualStackDialContext dialFn ips opt s) = Some e"
  shows "e = Joined (rev (primary_errs (dual_selects dialFn opt ips s))
                     @ fallback_errs (dual_selects dialFn opt ips s))"
proof -
  obtain c where "dualStack_loop (dual_selects dialFn opt ips s) zero_dialResult [] = (c, Some e)"
    using assms by (cases "dualStackDialContext dialFn ips opt s")
      (simp add: dualStackDialContext_run)
  from dualStack_loop_error [OF this] show ?thesis by simp
qed

theorem dualStack_errors_primary_first_witness:
  "[IPv4 1, IPv6 3] \<noteq> []
   \<and> snd (dualStackDialContext (serialDialContext refusing_dial) [IPv4 1, IPv6 3] prefer6_option
            [Finished Task4, Ticker, Finished Task6])
       = Some (Joined [connect_failed (Joined [Other ''network is unreachable'']),
                       connect_failed (Joined [Other ''connection refused''])])
   \<and> Joined [connect_failed (Joined [Other ''network is unreachable'']),
              connect_failed (Joined [Other ''connection refused''])]
       = Joined (rev (primary_errs (dual_selects (serialDialContext refusing_dial) prefer6_option
                   [IPv4 1, IPv6 3] [Finished Task4, Ticker, Finished Task6]))
                 @ fallback_errs (dual_selects (serialDialContext refusing_dial) prefer6_option
                   [IPv4 1, IPv6 3] [Finished Task4, Ticker, Finished Task6]))"
proof -
  have ne: "[IPv4 1, IPv6 3] \<noteq> []" by simp
  have run: "snd (dualStackDialContext (serialDialContext refusing_dial) [IPv4 1, IPv6 3]
            prefer6_option [Finished Task4, Ticker, Finished Task6])
       = Some (Joined [connect_failed (Joined [Other ''network is unreachable'']),
                       connect_failed (Joined [Other ''connection refused''])])"
    by (simp add: dualStackDialContext_def SortationAddr_def racers_def racer_def
        serialDialContext_def serialDialContext_log_def refusing_dial_def errors_Join_def
        prefer6_option_def applyOptions_def initial_globals_def seed_option_def
        WithPreferIPv6_def zero_dialResult_def)
  from dualStack_errors_primary_first [OF ne run] ne run show ?thesis by simp
qed

lemma dualStack_loop_no_primary:
  assumes "\<forall>res. Recv res \<in> set ss \<and> isPrimary res \<longrightarrow> error res \<noteq> None"
    and "\<forall>res. Recv res \<in> set ss \<and> \<not> isPrimary res \<and> error res = None \<longrightarrow> res = r"
    and "held fb \<longrightarrow> fb = r"
  shows "dualStack_loop ss fb errs =
           (if held fb \<or> (Recv r \<in> set ss \<and> \<not> isPrimary r \<and> held r) then (Conn r, None)
            else (None, errors_Join (rev (primary_errs ss) @ errs @ fallback_errs ss)))"
  using assms
proof (induction ss arbitrary: fb errs)
  case Nil
  then show ?case by (cases "held fb") (auto simp add: held_def)
next
  case (Cons x ss)
  from Cons.prems(1)
  have p1: "\<forall>res. Recv res \<in> set ss \<and> isPrimary res \<longrightarrow> error res \<noteq> None"
    by simp
  from Cons.prems(2)
  have p2: "\<forall>res. Recv res \<in> set ss \<and> \<not> isPrimary res \<and> error res = None \<longrightarrow> res = r"
    by simp
  note IH = Cons.IH [OF p1 p2]
  show ?case
  proof (cases x)
    case Tick
    show ?thesis
    proof (cases "held fb")
      case True
      with Cons.prems(3) have "fb = r" by simp
      with True Tick show ?thesis by (auto simp add: held_def)
    next
      case False
      then have "dualStack_loop (x # ss) fb errs = dualStack_loop ss fb errs"
        using Tick by (auto simp add: held_def)
      with IH [of fb errs] False Tick show ?thesis by simp
    qed
  next
    case (Recv res)
    show ?thesis
    proof (cases "error res")
      case None
      from Cons.prems(1) [THEN spec, of res] Recv None have np: "\<not> isPrimary res" by simp
      from Cons.prems(2) [THEN spec, of res] Recv None np have eq: "res = r" by simp
      have step: "dualStack_loop (x # ss) fb errs = dualStack_loop ss r errs"
        using Recv None np eq by simp
      have fbr: "held fb \<Longrightarrow> held r"
        using Cons.prems(3) by simp
      have mem: "Recv r \<in> set (x # ss)" "\<not> isPrimary r"
        using Recv eq np by simp_all
      have errs: "primary_errs (x # ss) = primary_errs ss" "fallback_errs (x # ss) = fallback_errs ss"
        using Recv None by simp_all
      have "dualStack_loop ss r errs =
           (if held r \<or> (Recv r \<in> set ss \<and> \<not> isPrimary r \<and> held r) then (Conn r, None)
            else (None, errors_Join (rev (primary_errs ss) @ errs @ fallback_errs ss)))"
        by (rule IH) simp
      then show ?thesis
        unfolding step errs using fbr mem by (cases "held r"; cases "held fb") simp_all
    next
      case (Some e)
      have nr: "held r \<Longrightarrow> Recv r \<in> set (x # ss) = (Recv r \<in> set ss)"
        using Recv Some by (auto simp add: held_def)
      show ?thesis
      proof (cases "isPrimary res")
        case True
        have step: "dualStack_loop (x # ss) fb errs = dualStack_loop ss fb (connect_failed e # errs)"
          using Recv Some True by simp
        have errs: "primary_errs (x # ss) = connect_failed e # primary_errs ss"
          "fallback_errs (x # ss) = fallback_errs ss"
          using Recv Some True by simp_all
        from IH [OF Cons.prems(3), of "connect_failed e # errs"] nr show ?thesis
          unfolding step errs by (cases "held r") simp_all
      next
        case False
        have step: "dualStack_loop (x # ss) fb errs = dualStack_loop ss fb (errs @ [connect_failed e])"
          using Recv Some False by simp
        have errs: "primary_errs (x # ss) = primary_errs ss"
          "fallback_errs (x # ss) = connect_failed e # fallback_errs ss"
          using Recv Some False by simp_all
        from IH [OF Cons.prems(3), of "errs @ [connect_failed e]"] nr show ?thesis
          unfolding step errs by (cases "held r") simp_all
      qed
    qed
  qed
qed

lemma Recv_in_selects:
  "(Recv res \<in> set (selects rs s)) = (\<exists>t. Finished t \<in> set s \<and> rs t = Some res)"
proof (induction rs s rule: selects.induct)
  case (1 rs)
  show ?case by simp
next
  case (2 rs s)
  then show ?case by simp
next
  case (3 rs t s)
  then show ?case by (cases "rs t") auto
qed

lemma complete_schedule_Finished:
  "complete_schedule rs s \<Longrightarrow> (Finished t \<in> set s) = (rs t \<noteq> None)"
proof -
  assume c: "complete_schedule rs s"
  have "(Finished t \<in> set s) = (count_list s (Finished t) \<noteq> 0)"
    by (simp add: count_list_0_iff)
  also from c have "\<dots> = (rs t \<noteq> None)"
    by (cases t) (auto simp add: complete_schedule_def)
  finally show ?thesis .
qed

lemma one_fallback_racer:
  assumes "racers dialFn opt ipv4s ipv6s t = Some res" and "\<not> isPrimary res"
    and "racers dialFn opt ipv4s ipv6s t' = Some res'" and "\<not> isPrimary res'"
  shows "res = res'"
proof -
  from assms have "t = t'"
    by (cases t; cases t') (auto simp add: racers_def racer_def split: if_splits)
  with assms show ?thesis by simp
qed

lemma primary_errs_mem:
  "Recv res \<in> set ss \<Longrightarrow> isPrimary res \<Longrightarrow> error res = Some e \<Longrightarrow>
   connect_failed e \<in> set (primary_errs ss)"
proof (induction ss rule: primary_errs.induct)
  case 1
  then show ?case by simp
next
  case (2 ss)
  then show ?case by simp
next
  case (3 r ss)
  then show ?case by (cases "error r") auto
qed

lemma fallback_errs_mem:
  "Recv res \<in> set ss \<Longrightarrow> \<not> isPrimary res \<Longrightarrow> error res = Some e \<Longrightarrow>
   connect_failed e \<in> set (fallback_errs ss)"
proof (induction ss rule: fallback_errs.induct)
  case 1
  then show ?case by simp
next
  case (2 ss)
  then show ?case by simp
next
  case (3 r ss)
  then show ?case by (cases "error r") auto
qed



lemma Recv_in_dual_selects:
  assumes "complete_schedule (dual_racers dialFn opt ips) s"
  shows "(Recv res \<in> set (dual_selects dialFn opt ips s))
           = (\<exists>t. dual_racers dialFn opt ips t = Some res)"
  unfolding dual_selects_def Recv_in_selects
  using complete_schedule_Finished [OF assms] by auto

text \<open>
  C3. Take a call on a nonempty list in which every started racer has finished and no
  primary racer has succeeded. If the fallback racer's result is held, its connection
  is returned. If no racer's result is held, the result is the joined error of the
  accumulated errors, and the error of every racer is among them.
\<close>

theorem dualStack_all_finished:
  assumes ne: "ips \<noteq> []"
    and complete: "complete_schedule (dual_racers dialFn opt ips) s"
    and noprim: "\<forall>t res. dual_racers dialFn opt ips t = Some res \<and> isPrimary res
                   \<longrightarrow> error res \<noteq> None"
  shows "(\<forall>t res. dual_racers dialFn opt ips t = Some res \<and> \<not> isPrimary res \<and> held res
            \<longrightarrow> dualStackDialContext dialFn ips opt s = (Conn res, None))
       \<and> ((\<forall>t res. dual_racers dialFn opt ips t = Some res \<longrightarrow> \<not> held res)
            \<longrightarrow> dualStackDialContext dialFn ips opt s
                  = (None, errors_Join (rev (primary_errs (dual_selects dialFn opt ips s))
                                        @ fallback_errs (dual_selects dialFn opt ips s)))
                \<and> (\<forall>t res e. dual_racers dialFn opt ips t = Some res \<and> error res = Some e
                      \<longrightarrow> connect_failed e
                            \<in> set (rev (primary_errs (dual_selects dialFn opt ips s))
                                   @ fallback_errs (dual_selects dialFn opt ips s))))"
proof -
  let ?rs = "dual_racers dialFn opt ips"
  let ?sel = "dual_selects dialFn opt ips s"
  note mem = Recv_in_dual_selects [OF complete]
  note run = dualStackDialContext_run [OF ne, of dialFn opt s]
  have a1: "\<forall>res. Recv res \<in> set ?sel \<and> isPrimary res \<longrightarrow> error res \<noteq> None"
    using noprim unfolding mem by blast
  have a3: "held zero_dialResult \<longrightarrow> zero_dialResult = r" for r
    by (simp add: held_def zero_dialResult_def)
  have one: "res' = res"
    if "?rs t = Some res" "\<not> isPrimary res" "Recv res' \<in> set ?sel" "\<not> isPrimary res'"
    for t res res'
  proof -
    from that(3) obtain t' where "?rs t' = Some res'"
      unfolding mem by blast
    with that show ?thesis
      unfolding dual_racers_def by (metis one_fallback_racer)
  qed
  have part1: "dualStackDialContext dialFn ips opt s = (Conn res, None)"
    if h: "?rs t = Some res \<and> \<not> isPrimary res \<and> held res" for t res
  proof -
    have a2: "\<forall>res'. Recv res' \<in> set ?sel \<and> \<not> isPrimary res' \<and> error res' = None
                \<longrightarrow> res' = res"
      using one [of t res] h by blast
    have "Recv res \<in> set ?sel"
      unfolding mem using h by blast
    with dualStack_loop_no_primary [OF a1 a2 a3, of "[]"] h show ?thesis
      unfolding run by simp
  qed
  have part2: "dualStackDialContext dialFn ips opt s
                  = (None, errors_Join (rev (primary_errs ?sel) @ fallback_errs ?sel))"
    if h: "\<forall>t res. ?rs t = Some res \<longrightarrow> \<not> held res"
  proof -
    have nh: "\<not> held res" if "Recv res \<in> set ?sel" for res
      using that h unfolding mem by blast
    obtain r where a2: "\<forall>res'. Recv res' \<in> set ?sel \<and> \<not> isPrimary res' \<and> error res' = None
                \<longrightarrow> res' = r" and nhr: "Recv r \<in> set ?sel \<longrightarrow> \<not> held r"
    proof (cases "\<exists>res. Recv res \<in> set ?sel \<and> \<not> isPrimary res \<and> error res = None")
      case True
      then obtain res where r: "Recv res \<in> set ?sel" "\<not> isPrimary res" "error res = None"
        by blast
      then obtain t where "?rs t = Some res"
        unfolding mem by blast
      with r have "\<forall>res'. Recv res' \<in> set ?sel \<and> \<not> isPrimary res' \<and> error res' = None
                \<longrightarrow> res' = res"
        using one [of t res] by blast
      with nh [of res] that show ?thesis by blast
    next
      case False
      then have "\<forall>res'. Recv res' \<in> set ?sel \<and> \<not> isPrimary res' \<and> error res' = None
                \<longrightarrow> res' = zero_dialResult"
        by blast
      with nh [of zero_dialResult] that show ?thesis by blast
    qed
    have "\<not> held zero_dialResult"
      by (simp add: held_def zero_dialResult_def)
    with dualStack_loop_no_primary [OF a1 a2 a3, of "[]"] nhr show ?thesis
      unfolding run by auto
  qed
  have part3: "connect_failed e \<in> set (rev (primary_errs ?sel) @ fallback_errs ?sel)"
    if h: "?rs t = Some res \<and> error res = Some e" for t res e
  proof -
    from h have r: "Recv res \<in> set ?sel"
      unfolding mem by blast
    show ?thesis
    proof (cases "isPrimary res")
      case True
      from primary_errs_mem [OF r True] h show ?thesis by simp
    next
      case False
      from fallback_errs_mem [OF r False] h show ?thesis by simp
    qed
  qed
  from part1 part2 part3 show ?thesis by blast
qed

theorem dualStack_all_finished_witness:
  "[IPv4 2, IPv6 3] \<noteq> []
   \<and> complete_schedule (dual_racers (serialDialContext example_dial) prefer6_option [IPv4 2, IPv6 3])
        [Finished Task4, Ticker, Finished Task6]
   \<and> dualStackDialContext (serialDialContext example_dial) [IPv4 2, IPv6 3] prefer6_option
        [Finished Task4, Ticker, Finished Task6] = (Some (Connection 42), None)"
proof -
  let ?rs = "dual_racers (serialDialContext example_dial) prefer6_option [IPv4 2, IPv6 3]"
  have p6: "prefer_ip prefer6_option = 6"
    by (simp add: prefer6_option_def applyOptions_def initial_globals_def seed_option_def
        WithPreferIPv6_def)
  have r4: "?rs Task4 = Some \<lparr>ip = None, Conn = Some (Connection 42), error = None, isPrimary = False\<rparr>"
    by (simp add: dual_racers_def racers_def racer_def SortationAddr_def p6
        serialDialContext_def serialDialContext_log_def example_dial_def)
  have r6: "?rs Task6 = Some \<lparr>ip = None, Conn = None,
      error = Some (Joined [Other ''connection refused'']), isPrimary = True\<rparr>"
    by (simp add: dual_racers_def racers_def racer_def SortationAddr_def p6
        serialDialContext_def serialDialContext_log_def example_dial_def errors_Join_def)
  have ne: "[IPv4 2, IPv6 3] \<noteq> []" by simp
  have complete: "complete_schedule ?rs [Finished Task4, Ticker, Finished Task6]"
    by (simp add: complete_schedule_def r4 r6)
  have noprim: "\<forall>t res. ?rs t = Some res \<and> isPrimary res \<longrightarrow> error res \<noteq> None"
  proof (intro allI impI)
    fix t res
    assume "?rs t = Some res \<and> isPrimary res"
    with r4 r6 show "error res \<noteq> None" by (cases t) auto
  qed
  have "dualStackDialContext (serialDialContext example_dial) [IPv4 2, IPv6 3] prefer6_option
        [Finished Task4, Ticker, Finished Task6]
      = (Conn \<lparr>ip = None, Conn = Some (Connection 42), error = None, isPrimary = False\<rparr>, None)"
    by (rule dualStack_all_finished [OF ne complete noprim, THEN conjunct1, rule_format, of Task4])
       (simp add: r4 held_def)
  with ne complete show ?thesis by simp
qed

lemma selects_append: "selects rs (a @ b) = selects rs a @ selects rs b"
proof (induction rs a rule: selects.induct)
  case (1 rs)
  show ?case by simp
next
  case (2 rs s)
  then show ?case by simp
next
  case (3 rs t s)
  then show ?case by (cases "rs t") simp_all
qed

lemma dual_selects_split:
  "dual_racers dialFn opt ips t = Some res \<Longrightarrow>
   dual_selects dialFn opt ips (pre @ Finished t # post)
     = dual_selects dialFn opt ips pre @ Recv res # dual_selects dialFn opt ips post"
  by (simp add: dual_selects_def selects_append)

lemma dual_selects_Ticker:
  "dual_selects dialFn opt ips (Ticker # post) = Tick # dual_selects dialFn opt ips post"
  by (simp add: dual_selects_def)

lemma dual_racers_started:
  "dual_racers dialFn opt ips t = Some res \<Longrightarrow> ips \<noteq> []"
  by (cases t) (auto simp add: dual_racers_def racers_def SortationAddr_def)

lemma dualStack_loop_quiet_prefix:
  "no_success pre \<Longrightarrow> \<not> held fb \<Longrightarrow>
   dualStack_loop (pre @ ss) fb errs
     = dualStack_loop ss fb (rev (primary_errs pre) @ errs @ fallback_errs pre)"
proof (induction pre arbitrary: errs)
  case Nil
  show ?case by simp
next
  case (Cons x pre)
  from Cons.prems(1) have q: "no_success pre"
    by (simp add: no_success_def)
  note IH = Cons.IH [OF q Cons.prems(2)]
  show ?case
  proof (cases x)
    case Tick
    with Cons.prems(2) IH [of errs] show ?thesis
      by (auto simp add: held_def)
  next
    case (Recv res)
    with Cons.prems(1) obtain e where e: "error res = Some e"
      by (auto simp add: no_success_def)
    show ?thesis
    proof (cases "isPrimary res")
      case True
      with Recv e IH [of "connect_failed e # errs"] show ?thesis by simp
    next
      case False
      with Recv e IH [of "errs @ [connect_failed e]"] show ?thesis by simp
    qed
  qed
qed

lemma not_held_zero: "\<not> held zero_dialResult"
  by (simp add: held_def zero_dialResult_def)

lemma dualStack_after_quiet_prefix:
  assumes "no_success (dual_selects dialFn opt ips pre)"
    and "dual_racers dialFn opt ips t = Some res"
  shows "dualStackDialContext dialFn ips opt (pre @ Finished t # post)
           = dualStack_loop (Recv res # dual_selects dialFn opt ips post) zero_dialResult
               (rev (primary_errs (dual_selects dialFn opt ips pre))
                @ fallback_errs (dual_selects dialFn opt ips pre))"
  using dualStack_loop_quiet_prefix [OF assms(1) not_held_zero, of _ "[]"]
  by (simp add: dualStackDialContext_run [OF dual_racers_started [OF assms(2)]]
      dual_selects_split [OF assms(2)])

text \<open>
  C4. The racer of a nonempty IPv4 group is started with \<open>isPrimary = (prefer != 6)\<close>
  and the racer of a nonempty IPv6 group with \<open>isPrimary = (prefer != 4)\<close>, whether or
  not the other group is empty: with no preference every started racer is primary, with
  preference 4 exactly the IPv4 racer, with preference 6 exactly the IPv6 racer. In a
  call of \<open>dualStackDialContext\<close>, after any stretch of ticks and failures, a primary
  racer's result without error is returned at once, whatever follows. A fallback
  racer's result without error is not returned: the loop goes on with it stored, a
  primary result without error that arrives next is returned in its place, and a tick
  that comes next returns the stored connection.
\<close>

theorem dualStack_primacy:
  "racers dialFn opt ipv4s ipv6s Task4
     = (if ipv4s = [] then None else Some (racer dialFn ipv4s (prefer_ip opt \<noteq> 6)))
   \<and> racers dialFn opt ipv4s ipv6s Task6
     = (if ipv6s = [] then None else Some (racer dialFn ipv6s (prefer_ip opt \<noteq> 4)))
   \<and> isPrimary (racer dialFn grp b) = b
   \<and> (\<forall>t res. dual_racers dialFn opt ips t = Some res \<longrightarrow>
         (prefer_ip opt \<noteq> 4 \<and> prefer_ip opt \<noteq> 6 \<longrightarrow> isPrimary res)
       \<and> (prefer_ip opt = 4 \<longrightarrow> isPrimary res = (t = Task4))
       \<and> (prefer_ip opt = 6 \<longrightarrow> isPrimary res = (t = Task6)))
   \<and> (\<forall>pre t post res.
         no_success (dual_selects dialFn opt ips pre)
         \<and> dual_racers dialFn opt ips t = Some res \<and> error res = None \<and> isPrimary res
         \<longrightarrow> dualStackDialContext dialFn ips opt (pre @ Finished t # post) = (Conn res, None))
   \<and> (\<forall>pre t post res.
         no_success (dual_selects dialFn opt ips pre)
         \<and> dual_racers dialFn opt ips t = Some res \<and> error res = None \<and> \<not> isPrimary res
         \<longrightarrow> dualStackDialContext dialFn ips opt (pre @ Finished t # post)
               = dualStack_loop (dual_selects dialFn opt ips post) res
                   (rev (primary_errs (dual_selects dialFn opt ips pre))
                    @ fallback_errs (dual_selects dialFn opt ips pre)))
   \<and> (\<forall>pre t t' post res res'.
         no_success (dual_selects dialFn opt ips pre)
         \<and> dual_racers dialFn opt ips t = Some res \<and> error res = None \<and> \<not> isPrimary res
         \<and> dual_racers dialFn opt ips t' = Some res' \<and> error res' = None \<and> isPrimary res'
         \<longrightarrow> dualStackDialContext dialFn ips opt (pre @ Finished t # Finished t' # post)
               = (Conn res', None))
   \<and> (\<forall>pre t post res.
         no_success (dual_selects dialFn opt ips pre)
         \<and> dual_racers dialFn opt ips t = Some res \<and> held res \<and> \<not> isPrimary res
         \<longrightarrow> dualStackDialContext dialFn ips opt (pre @ Finished t # Ticker # post)
               = (Conn res, None))"
proof -
  have r4: "racers dialFn opt ipv4s ipv6s Task4
     = (if ipv4s = [] then None else Some (racer dialFn ipv4s (prefer_ip opt \<noteq> 6)))"
    by (simp add: racers_def)
  have r6: "racers dialFn opt ipv4s ipv6s Task6
     = (if ipv6s = [] then None else Some (racer dialFn ipv6s (prefer_ip opt \<noteq> 4)))"
    by (simp add: racers_def)
  have flag: "isPrimary (racer dialFn grp b) = b"
    by (simp add: racer_def)
  have pref: "(prefer_ip opt \<noteq> 4 \<and> prefer_ip opt \<noteq> 6 \<longrightarrow> isPrimary res)
       \<and> (prefer_ip opt = 4 \<longrightarrow> isPrimary res = (t = Task4))
       \<and> (prefer_ip opt = 6 \<longrightarrow> isPrimary res = (t = Task6))"
    if "dual_racers dialFn opt ips t = Some res" for t res
    using that by (cases t) (auto simp add: dual_racers_def racers_def racer_def split: if_splits)
  have prim: "dualStackDialContext dialFn ips opt (pre @ Finished t # post) = (Conn res, None)"
    if "no_success (dual_selects dialFn opt ips pre)
         \<and> dual_racers dialFn opt ips t = Some res \<and> error res = None \<and> isPrimary res"
    for pre t post res
  proof -
    from that have q: "no_success (dual_selects dialFn opt ips pre)"
      and r: "dual_racers dialFn opt ips t = Some res"
      and s: "error res = None" "isPrimary res"
      by simp_all
    show ?thesis
      unfolding dualStack_after_quiet_prefix [OF q r] using s by simp
  qed
  have fall: "dualStackDialContext dialFn ips opt (pre @ Finished t # post)
               = dualStack_loop (dual_selects dialFn opt ips post) res
                   (rev (primary_errs (dual_selects dialFn opt ips pre))
                    @ fallback_errs (dual_selects dialFn opt ips pre))"
    if "no_success (dual_selects dialFn opt ips pre)
         \<and> dual_racers dialFn opt ips t = Some res \<and> error res = None \<and> \<not> isPrimary res"
    for pre t post res
  proof -
    from that have q: "no_success (dual_selects dialFn opt ips pre)"
      and r: "dual_racers dialFn opt ips t = Some res"
      and s: "error res = None" "\<not> isPrimary res"
      by simp_all
    show ?thesis
      unfolding dualStack_after_quiet_prefix [OF q r] using s by simp
  qed
  have over: "dualStackDialContext dialFn ips opt (pre @ Finished t # Finished t' # post)
               = (Conn res', None)"
    if "no_success (dual_selects dialFn opt ips pre)
         \<and> dual_racers dialFn opt ips t = Some res \<and> error res = None \<and> \<not> isPrimary res
         \<and> dual_racers dialFn opt ips t' = Some res' \<and> error res' = None \<and> isPrimary res'"
    for pre t t' post res res'
  proof -
    from that have h: "no_success (dual_selects dialFn opt ips pre)
         \<and> dual_racers dialFn opt ips t = Some res \<and> error res = None \<and> \<not> isPrimary res"
      and r': "dual_racers dialFn opt ips t' = Some res'"
      and s': "error res' = None" "isPrimary res'"
      by simp_all
    from dual_selects_split [OF r', of "[]" post]
    have "dual_selects dialFn opt ips (Finished t' # post)
        = Recv res' # dual_selects dialFn opt ips post"
      by (simp add: dual_selects_def)
    with fall [OF h, of "Finished t' # post"] s' show ?thesis by simp
  qed
  have tick: "dualStackDialContext dialFn ips opt (pre @ Finished t # Ticker # post)
               = (Conn res, None)"
    if "no_success (dual_selects dialFn opt ips pre)
         \<and> dual_racers dialFn opt ips t = Some res \<and> held res \<and> \<not> isPrimary res"
    for pre t post res
  proof -
    from that have hr: "error res = None" "Conn res \<noteq> None"
      by (simp_all add: held_def)
    with that have h: "no_success (dual_selects dialFn opt ips pre)
         \<and> dual_racers dialFn opt ips t = Some res \<and> error res = None \<and> \<not> isPrimary res"
      by simp
    from fall [OF h, of "Ticker # post"] hr show ?thesis
      by (simp add: dual_selects_Ticker)
  qed
  show ?thesis
  proof (intro conjI allI impI)
    show "racers dialFn opt ipv4s ipv6s Task4
     = (if ipv4s = [] then None else Some (racer dialFn ipv4s (prefer_ip opt \<noteq> 6)))"
      by (rule r4)
    show "racers dialFn opt ipv4s ipv6s Task6
     = (if ipv6s = [] then None else Some (racer dialFn ipv6s (prefer_ip opt \<noteq> 4)))"
      by (rule r6)
    show "isPrimary (racer dialFn grp b) = b"
      by (rule flag)
  qed (use pref prim fall over tick in blast)+
qed

theorem dualStack_primacy_witness:
  "prefer_ip prefer6_option = 6
   \<and> racers (serialDialContext example_dial) prefer6_option [IPv4 1] [] Task4
       = Some \<lparr>ip = None, Conn = None, error = Some (Joined [Other ''connection refused'']),
               isPrimary = False\<rparr>
   \<and> no_success (dual_selects (serialDialContext example_dial) prefer6_option
         [IPv4 2, IPv6 2] [Ticker])
   \<and> dual_racers (serialDialContext example_dial) prefer6_option [IPv4 2, IPv6 2] Task4
       = Some \<lparr>ip = None, Conn = Some (Connection 42), error = None, isPrimary = False\<rparr>
   \<and> dual_racers (serialDialContext example_dial) prefer6_option [IPv4 2, IPv6 2] Task6
       = Some \<lparr>ip = None, Conn = Some (Connection 62), error = None, isPrimary = True\<rparr>
   \<and> dualStackDialContext (serialDialContext example_dial) [IPv4 2, IPv6 2] prefer6_option
        [Ticker, Finished Task4, Finished Task6] = (Some (Connection 62), None)
   \<and> dualStackDialContext (serialDialContext example_dial) [IPv4 2, IPv6 2] prefer6_option
        [Ticker, Finished Task4, Ticker, Finished Task6] = (Some (Connection 42), None)"
proof -
  let ?D = "serialDialContext example_dial"
  let ?r4 = "\<lparr>ip = None, Conn = Some (Connection 42), error = None, isPrimary = False\<rparr>"
  let ?r6 = "\<lparr>ip = None, Conn = Some (Connection 62), error = None, isPrimary = True\<rparr>"
  note t = dualStack_primacy [where dialFn = ?D and opt = prefer6_option
      and ips = "[IPv4 2, IPv6 2]" and ?ipv4s.0 = "[IPv4 1]" and ?ipv6s.0 = "[]"]
  have p6: "prefer_ip prefer6_option = 6"
    by (simp add: prefer6_option_def applyOptions_def initial_globals_def seed_option_def
        WithPreferIPv6_def)
  from t [THEN conjunct1]
  have lone: "racers ?D prefer6_option [IPv4 1] [] Task4
       = Some \<lparr>ip = None, Conn = None, error = Some (Joined [Other ''connection refused'']),
               isPrimary = False\<rparr>"
    by (simp add: p6 racer_def serialDialContext_def serialDialContext_log_def
        example_dial_def errors_Join_def)
  have q: "no_success (dual_selects ?D prefer6_option [IPv4 2, IPv6 2] [Ticker])"
    by (simp add: no_success_def dual_selects_def)
  have r4: "dual_racers ?D prefer6_option [IPv4 2, IPv6 2] Task4 = Some ?r4"
    by (simp add: dual_racers_def racers_def racer_def SortationAddr_def p6
        serialDialContext_def serialDialContext_log_def example_dial_def)
  have r6: "dual_racers ?D prefer6_option [IPv4 2, IPv6 2] Task6 = Some ?r6"
    by (simp add: dual_racers_def racers_def racer_def SortationAddr_def p6
        serialDialContext_def serialDialContext_log_def example_dial_def)
  have over: "dualStackDialContext ?D [IPv4 2, IPv6 2] prefer6_option
        ([Ticker] @ Finished Task4 # Finished Task6 # []) = (Conn ?r6, None)"
    by (rule t [THEN conjunct2, THEN conjunct2, THEN conjunct2, THEN conjunct2,
          THEN conjunct2, THEN conjunct2, THEN conjunct1, rule_format, where res = ?r4])
       (simp add: q r4 r6)
  have tick: "dualStackDialContext ?D [IPv4 2, IPv6 2] prefer6_option
        ([Ticker] @ Finished Task4 # Ticker # [Finished Task6]) = (Conn ?r4, None)"
    by (rule t [THEN conjunct2, THEN conjunct2, THEN conjunct2, THEN conjunct2,
          THEN conjunct2, THEN conjunct2, THEN conjunct2, rule_format])
       (simp add: q r4 held_def)
  from p6 lone q r4 r6 over tick show ?thesis by simp
qed

subsection \<open>Options\<close>

lemma range_apply_fold: "range_apply fs opt = fold (\<lambda>h. h) fs opt"
  by (induction fs arbitrary: opt) simp_all

text \<open>
  C9. Inside \<open>applyOptions\<close>, \<open>WithOption o\<close> replaces the whole policy bundle: whatever
  the seeded defaults, the process-wide default options and the options before it have
  set is gone. Applied last, it makes the result \<open>o\<close> itself; otherwise the result is
  \<open>o\<close> with the options after it applied in order, and with nothing else. The same
  holds when \<open>WithOption o\<close> stands in the process-wide default option list.
\<close>

theorem applyOptions_WithOption:
  "applyOptions g (before @ [WithOption o']) = o'
   \<and> applyOptions g (before @ WithOption o' # after) = fold (\<lambda>h. h) after o'
   \<and> applyOptions g (before @ [WithOption o', WithInterface name, WithRoutingMark mark])
       = o'\<lparr>interfaceName := name, routingMark := mark\<rparr>
   \<and> applyOptions (g\<lparr>DefaultOptions := before @ [WithOption o']\<rparr>) [] = o'
   \<and> applyOptions (g\<lparr>DefaultOptions := before @ WithOption o' # after\<rparr>) options
       = fold (\<lambda>h. h) (after @ options) o'
   \<and> WithOption o' opt = o'"
proof -
  have gen: "applyOptions g (before @ WithOption o' # after) = fold (\<lambda>h. h) after o'"
    for after
    by (simp add: applyOptions_def range_apply_append WithOption_def range_apply_fold)
  have defaults: "applyOptions (g\<lparr>DefaultOptions := before @ WithOption o' # after\<rparr>) options
       = fold (\<lambda>h. h) (after @ options) o'" for after options
    by (simp add: applyOptions_def range_apply_append WithOption_def range_apply_fold)
  have last: "applyOptions g (before @ [WithOption o']) = o'"
    using gen [of "[]"] by simp
  have two: "applyOptions g (before @ [WithOption o', WithInterface name, WithRoutingMark mark])
       = o'\<lparr>interfaceName := name, routingMark := mark\<rparr>"
    using gen [of "[WithInterface name, WithRoutingMark mark]"]
    by (simp add: WithInterface_def WithRoutingMark_def)
  have dlast: "applyOptions (g\<lparr>DefaultOptions := before @ [WithOption o']\<rparr>) [] = o'"
    using defaults [of "[]" "[]"] by simp
  have w: "WithOption o' opt = o'"
    by (simp add: WithOption_def)
  from last gen two dlast defaults w show ?thesis by simp
qed

subsection \<open>The dial entry point\<close>

text \<open>
  C7. \<open>parseAddr\<close> chooses the lookup by the whole token: \<open>tcp4\<close> and
  \<open>udp4\<close> resolve IPv4 only, \<open>tcp6\<close> and \<open>udp6\<close> IPv6 only, and every other token
  both families, also one that ends in \<open>4\<close> or \<open>6\<close>. On the six network tokens of
  the dial entry point this is the suffix rule.
\<close>

theorem choose_lookup_family:
  "lookup_family (choose_lookup net r) =
     (if net = ''tcp4'' \<or> net = ''udp4'' then IPv4Only
      else if net = ''tcp6'' \<or> net = ''udp6'' then IPv6Only
      else AnyFamily)
   \<and> (net \<in> {''tcp'', ''tcp4'', ''tcp6'', ''udp'', ''udp4'', ''udp6''}
        \<longrightarrow> lookup_family (choose_lookup net r) = suffix_family net)"
  by (auto simp add: choose_lookup_def suffix_family_def)

theorem choose_lookup_family_witness:
  "''udp6'' \<in> {''tcp'', ''tcp4'', ''tcp6'', ''udp'', ''udp4'', ''udp6''}
   \<and> lookup_family (choose_lookup ''udp6'' None) = IPv6Only
   \<and> suffix_family ''udp6'' = IPv6Only"
  using choose_lookup_family [of "''udp6''" None]
  by (simp add: suffix_family_def)

text \<open>
  The suffix rule fails on the token \<open>ip4\<close>: it ends in \<open>4\<close>, and \<open>parseAddr\<close>
  resolves both families for it.
\<close>

theorem choose_lookup_suffix_counterexample:
  "suffix_family ''ip4'' = IPv4Only
   \<and> lookup_family (choose_lookup ''ip4'' None) = AnyFamily
   \<and> lookup_family (choose_lookup ''ip4'' (Some 0)) = AnyFamily"
  by (simp add: suffix_family_def choose_lookup_def)

text \<open>
  C6. Without a forced single-stack family, a dial with a network token
  outside the six returns no connection: it returns the error of \<open>parseAddr\<close> when
  splitting or resolving the address fails, and \<open>ErrorInvalidedNetworkStack\<close> when they
  succeed.
\<close>

theorem DialContext_invalid_network:
  assumes "network (applyOptions g options) \<noteq> 4" and "network (applyOptions g options) \<noteq> 6"
    and "net \<notin> {''tcp'', ''tcp4'', ''tcp6'', ''udp'', ''udp4'', ''udp6''}"
  shows "DialContext g w net address options =
           (case parseAddr w net address (resolver (applyOptions g options)) of
              (ips, port, Some err) \<Rightarrow> (None, Some err)
            | (ips, port, None) \<Rightarrow> (None, Some ErrorInvalidedNetworkStack))
       \<and> fst (DialContext g w net address options) = None"
proof -
  from assms(1,2) have fn: "forced_network (applyOptions g options) net = net"
    by (simp add: forced_network_def)
  from assms(3) have d: "dispatch net = InvalidNetwork"
    by (simp add: dispatch_def)
  obtain ips port eo where p: "parseAddr w net address (resolver (applyOptions g options))
      = (ips, port, eo)"
    by (cases "parseAddr w net address (resolver (applyOptions g options))") auto
  show ?thesis
    by (cases eo) (simp_all add: DialContext_def Let_def fn d p)
qed

theorem DialContext_invalid_network_witness:
  "network (applyOptions initial_globals []) \<noteq> 4
   \<and> network (applyOptions initial_globals []) \<noteq> 6
   \<and> ''ip'' \<notin> {''tcp'', ''tcp4'', ''tcp6'', ''udp'', ''udp4'', ''udp6''}
   \<and> DialContext initial_globals example_world ''ip'' ''example.com:443'' []
       = (None, Some ErrorInvalidedNetworkStack)"
proof -
  have n: "network (applyOptions initial_globals []) = 0"
    by (simp add: applyOptions_def initial_globals_def seed_option_def)
  have n4: "network (applyOptions initial_globals []) \<noteq> 4"
    and n6: "network (applyOptions initial_globals []) \<noteq> 6"
    by (simp_all add: n)
  have t: "''ip'' \<notin> {''tcp'', ''tcp4'', ''tcp6'', ''udp'', ''udp4'', ''udp6''}"
    by simp
  have p: "parseAddr example_world ''ip'' ''example.com:443''
             (resolver (applyOptions initial_globals []))
           = ([IPv6 3, IPv4 1, IPv4 2], ''443'', None)"
    by (simp add: parseAddr_def example_world_def example_split_def example_lookup_def
        choose_lookup_def applyOptions_def initial_globals_def seed_option_def)
  from DialContext_invalid_network [OF n4 n6 t, of example_world "''example.com:443''"]
  show ?thesis
    by (simp add: p n)
qed

text \<open>
  The outcome for a token outside the six does depend on address resolution: the token
  \<open>ip\<close> with a host that does not resolve gives the resolver's error, not
  \<open>ErrorInvalidedNetworkStack\<close>, and with an address that does not split it gives the
  error of \<open>net.SplitHostPort\<close>.
\<close>

theorem DialContext_invalid_network_counterexample:
  "network (applyOptions initial_globals []) = 0
   \<and> ''ip'' \<notin> {''tcp'', ''tcp4'', ''tcp6'', ''udp'', ''udp4'', ''udp6''}
   \<and> DialContext initial_globals example_world ''ip'' ''nowhere.invalid:443'' []
       = (None, Some (Errorf ''dns resolve failed'' (Other ''no such host'')))
   \<and> DialContext initial_globals example_world ''ip'' ''example.com'' []
       = (None, Some (Other ''missing port in address''))
   \<and> snd (DialContext initial_globals example_world ''ip'' ''nowhere.invalid:443'' [])
       \<noteq> Some ErrorInvalidedNetworkStack"
  by (simp add: DialContext_def Let_def parseAddr_def example_world_def example_split_def
      example_lookup_def choose_lookup_def forced_network_def applyOptions_def
      initial_globals_def seed_option_def)

text \<open>
  C10. Under a forced single-stack family (\<open>network\<close> 4 or 6) every token is rewritten:
  a token that contains \<open>tcp\<close> to \<open>tcp4\<close> or \<open>tcp6\<close>, every other token to \<open>udp4\<close> or
  \<open>udp6\<close>. The rewritten token is always one of these four, the dispatch takes the
  single-stack branch, and \<open>DialContext\<close> returns the error of \<open>parseAddr\<close> or the
  result of the single-stack strategy, never through the invalid-network branch.
\<close>

theorem DialContext_forced_single_stack:
  assumes "network (applyOptions g options) = 4 \<or> network (applyOptions g options) = 6"
  shows "forced_network (applyOptions g options) net =
           (if strings_Contains net ''tcp'' then ''tcp'' else ''udp'')
             @ (if network (applyOptions g options) = 4 then ''4'' else ''6'')
       \<and> forced_network (applyOptions g options) net \<in> {''tcp4'', ''tcp6'', ''udp4'', ''udp6''}
       \<and> dispatch (forced_network (applyOptions g options) net) = SingleStack
       \<and> DialContext g w net address options =
           (case parseAddr w (forced_network (applyOptions g options) net) address
                   (resolver (applyOptions g options)) of
              (ips, port, Some err) \<Rightarrow> (None, Some err)
            | (ips, port, None) \<Rightarrow>
                call_single (actualSingleStackDialContext g)
                  (\<lambda>a. dialContext w (forced_network (applyOptions g options) net) a port
                         (applyOptions g options))
                  (completion_time w) ips)"
proof -
  let ?opt = "applyOptions g options"
  from assms have fn: "forced_network ?opt net =
           (if strings_Contains net ''tcp'' then ''tcp'' else ''udp'')
             @ (if network ?opt = 4 then ''4'' else ''6'')"
    by (simp add: forced_network_def)
  then have four: "forced_network ?opt net \<in> {''tcp4'', ''tcp6'', ''udp4'', ''udp6''}"
    by simp
  then have d: "dispatch (forced_network ?opt net) = SingleStack"
    unfolding dispatch_def by auto
  obtain ips port eo where p: "parseAddr w (forced_network ?opt net) address (resolver ?opt)
      = (ips, port, eo)"
    by (cases "parseAddr w (forced_network ?opt net) address (resolver ?opt)") auto
  have "DialContext g w net address options =
           (case parseAddr w (forced_network ?opt net) address (resolver ?opt) of
              (ips, port, Some err) \<Rightarrow> (None, Some err)
            | (ips, port, None) \<Rightarrow>
                call_single (actualSingleStackDialContext g)
                  (\<lambda>a. dialContext w (forced_network ?opt net) a port ?opt)
                  (completion_time w) ips)"
    by (cases eo) (simp_all add: DialContext_def Let_def d p)
  with fn four d show ?thesis by blast
qed

theorem DialContext_forced_single_stack_witness:
  "(network (applyOptions initial_globals [WithOnlySingleStack True]) = 4
      \<or> network (applyOptions initial_globals [WithOnlySingleStack True]) = 6)
   \<and> forced_network (applyOptions initial_globals [WithOnlySingleStack True]) ''ip'' = ''udp4''
   \<and> forced_network (applyOptions initial_globals [WithOnlySingleStack False]) ''mptcp'' = ''tcp6''
   \<and> dispatch (forced_network (applyOptions initial_globals [WithOnlySingleStack True]) ''ip'')
       = SingleStack
   \<and> DialContext initial_globals example_world ''ip'' ''example.com:443''
        [WithOnlySingleStack True] = (Some (Connection 42), None)"
proof -
  have n: "network (applyOptions initial_globals [WithOnlySingleStack True]) = 4"
    by (simp add: applyOptions_def initial_globals_def seed_option_def WithOnlySingleStack_def)
  then have h: "network (applyOptions initial_globals [WithOnlySingleStack True]) = 4
      \<or> network (applyOptions initial_globals [WithOnlySingleStack True]) = 6"
    by simp
  have n6: "network (applyOptions initial_globals [WithOnlySingleStack False]) = 6"
    by (simp add: applyOptions_def initial_globals_def seed_option_def WithOnlySingleStack_def)
  have f6: "forced_network (applyOptions initial_globals [WithOnlySingleStack False]) ''mptcp''
      = ''tcp6''"
    by (simp add: forced_network_def n6)
  have r: "resolver (applyOptions initial_globals [WithOnlySingleStack True]) = None"
    by (simp add: applyOptions_def initial_globals_def seed_option_def WithOnlySingleStack_def)
  have p: "parseAddr example_world ''udp4'' ''example.com:443'' None
           = ([IPv4 1, IPv4 2], ''443'', None)"
    by (simp add: parseAddr_def example_world_def example_split_def example_lookup_def
        choose_lookup_def)
  have s: "actualSingleStackDialContext initial_globals = serialSingleStack"
    by (simp add: initial_globals_def)
  have dc: "dialContext example_world = (\<lambda>net a port opt. example_dial a)"
    by (simp add: example_world_def)
  note t = DialContext_forced_single_stack
    [OF h, of "''ip''" example_world "''example.com:443''"]
  from t [THEN conjunct1] have f:
    "forced_network (applyOptions initial_globals [WithOnlySingleStack True]) ''ip'' = ''udp4''"
    by (simp add: n)
  from t [THEN conjunct2, THEN conjunct2, THEN conjunct1] have d:
    "dispatch (forced_network (applyOptions initial_globals [WithOnlySingleStack True]) ''ip'')
       = SingleStack" .
  from t [THEN conjunct2, THEN conjunct2, THEN conjunct2]
  have "DialContext initial_globals example_world ''ip'' ''example.com:443''
        [WithOnlySingleStack True] = (Some (Connection 42), None)"
    unfolding f r p s dc
    by (simp add: call_single_def serialSingleStackDialContext_def serialDialContext_def
        serialDialContext_log_def example_dial_def)
  with h f f6 d show ?thesis by simp
qed

end
